theory Spec2Isabelle
  imports Complex_Main
begin

section \<open>Numbers, vectors and the library functions the script calls\<close>

text \<open>
  The script is a single JavaScript module (\<^verbatim>\<open>src/script.js\<close>) driving a three.js scene.
  JavaScript and GLSL numbers are modelled as mathematical reals (\<^typ>\<open>real\<close>): rounding of
  IEEE doubles is not part of the model. Values that the source only ever holds as
  integers are \<^typ>\<open>nat\<close> (\<^verbatim>\<open>charIndex\<close>) or \<^typ>\<open>int\<close> (\<^verbatim>\<open>Date.now()\<close>, milliseconds).
  Objects with fields \<^verbatim>\<open>x, y\<close> and \<^verbatim>\<open>x, y, z\<close> are records.
\<close>

record vec2 =
  px :: real
  py :: real

record vec3 =
  vx :: real
  vy :: real
  vz :: real

text \<open>\<^verbatim>\<open>THREE.MathUtils.lerp(x, y, t)\<close> of three.js: \<^verbatim>\<open>(1 - t) * x + t * y\<close>.\<close>

definition lerp :: "real \<Rightarrow> real \<Rightarrow> real \<Rightarrow> real" where
  "lerp x y t = (1 - t) * x + t * y"

subsection \<open>Configuration\<close>

text \<open>
  \<^verbatim>\<open>const CHARS = "KSHTC LOM".split("").filter(c => c.trim() !== "");\<close>
  \<^verbatim>\<open>split("")\<close> yields the one-character strings of the text, \<^verbatim>\<open>trim\<close> removes white space
  at both ends.
\<close>

definition is_ws :: "char \<Rightarrow> bool" where
  "is_ws c = (of_char c \<in> set [9, 10, 11, 12, 13, 32, 160 :: nat])"

definition trim :: "string \<Rightarrow> string" where
  "trim s = rev (dropWhile is_ws (rev (dropWhile is_ws s)))"

definition split_chars :: "string \<Rightarrow> string list" where
  "split_chars s = map (\<lambda>c. [c]) s"

definition CHARS :: "string list" where
  "CHARS = filter (\<lambda>c. trim c \<noteq> '''') (split_chars ''KSHTC LOM'')"

definition BEAM_COLORS :: "string list" where
  "BEAM_COLORS = [''#FF0000'', ''#FFFFFF'', ''#0100FF'']"

definition CYCLE_DURATION :: real where
  "CYCLE_DURATION = 2.0"

definition friction :: real where
  "friction = 0.99"

text \<open>The camera is created with a vertical field of view of 45 degrees, never changed.\<close>

definition camera_fov :: real where
  "camera_fov = 45"

section \<open>State\<close>

text \<open>
  The shape provider (\<^verbatim>\<open>FontLoader\<close> and \<^verbatim>\<open>TextGeometry\<close>) is external: a loaded font is
  taken as the function giving the bounding box of the geometry built for a character.
  \<^verbatim>\<open>CHARS[charIndex]\<close> is \<^verbatim>\<open>undefined\<close> out of range, which is \<^const>\<open>None\<close> here.
\<close>

record box =
  bmin :: vec3
  bmax :: vec3

type_synonym font = "string option \<Rightarrow> box"

record mesh =
  glyph :: "string option"
  rotation :: vec3
  scale :: vec3

record state =
  charIndex :: nat
  currentMesh :: "mesh option"
  meshStartTime :: real
  currentFont :: "font option"
  geoTopY :: real
  geoBottomY :: real
  isDragging :: bool
  previousMouse :: vec2
  rotationVelocity :: vec2
  currentRotation :: vec3
  targetScale :: real
  currentScale :: real
  clickFlashValue :: real
  downTime :: int
  downPos :: vec2
  uBeamColor :: string
  uScanY :: real
  uClickFlash :: real
  cameraZ :: real

text \<open>
  The module's top-level initialisation. The initial rotation is random in the source
  and a parameter here.
\<close>

definition init_state :: "vec3 \<Rightarrow> state" where
  "init_state rot =
     \<lparr> charIndex = 0, currentMesh = None, meshStartTime = 0, currentFont = None,
       geoTopY = 0, geoBottomY = 0, isDragging = False,
       previousMouse = \<lparr>px = 0, py = 0\<rparr>,
       rotationVelocity = \<lparr>px = 0, py = 0\<rparr>,
       currentRotation = rot,
       targetScale = 1.0, currentScale = 1.0, clickFlashValue = 0.0,
       downTime = 0, downPos = \<lparr>px = 0, py = 0\<rparr>,
       uBeamColor = ''#FFFFFF'', uScanY = 0.0, uClickFlash = 0.0,
       cameraZ = 100 \<rparr>"

section \<open>Shape construction\<close>

definition nth_opt :: "'a list \<Rightarrow> nat \<Rightarrow> 'a option" where
  "nth_opt xs i = (if i < length xs then Some (xs ! i) else None)"

text \<open>
  \<^verbatim>\<open>createLetter()\<close>. The argument \<open>r\<close> is the value of \<^verbatim>\<open>Math.random()\<close>
  (\<open>0 \<le> r < 1\<close>) used to pick the beam colour. Translating the geometry by the negated
  centre of its bounding box moves the box with it, which gives the recomputed bounds.
\<close>

definition createLetter :: "state \<Rightarrow> real \<Rightarrow> state" where
  "createLetter st r =
     (case currentFont st of
        None \<Rightarrow> st
      | Some fnt \<Rightarrow>
          let st1 = (case currentMesh st of
                       Some old \<Rightarrow> st\<lparr>currentRotation := rotation old\<rparr>
                     | None \<Rightarrow> st);
              char = nth_opt CHARS (charIndex st1);
              beamColor = BEAM_COLORS ! nat \<lfloor>r * real (length BEAM_COLORS)\<rfloor>;
              bx = fnt char;
              sizeY = vy (bmax bx) - vy (bmin bx);
              centerOffsetY = - 0.5 * (vy (bmax bx) + vy (bmin bx));
              new = \<lparr> glyph = char,
                      rotation = \<lparr>vx = vx (currentRotation st1),
                                  vy = vy (currentRotation st1),
                                  vz = vz (currentRotation st1)\<rparr>,
                      scale = \<lparr>vx = 1.2, vy = 0.8, vz = 1.0\<rparr> \<rparr>;
              fov = camera_fov * (pi / 180);
              targetH = sizeY * 0.9;
              dist = targetH / (2 * tan (fov / 2))
          in st1\<lparr> geoTopY := vy (bmax bx) + centerOffsetY,
                  geoBottomY := vy (bmin bx) + centerOffsetY,
                  currentMesh := Some new,
                  uBeamColor := beamColor,
                  uClickFlash := 0.0,
                  cameraZ := dist + 40 \<rparr>)"

section \<open>Pointer and touch handlers\<close>

text \<open>\<^verbatim>\<open>onDown(x, y)\<close>; \<open>now\<close> is the value of \<^verbatim>\<open>Date.now()\<close>.\<close>

definition onDown :: "state \<Rightarrow> int \<Rightarrow> real \<Rightarrow> real \<Rightarrow> state" where
  "onDown st now x y =
     st\<lparr> isDragging := True,
         previousMouse := \<lparr>px = x, py = y\<rparr>,
         downPos := \<lparr>px = x, py = y\<rparr>,
         downTime := now,
         rotationVelocity := \<lparr>px = 0, py = 0\<rparr> \<rparr>"

definition onMove :: "state \<Rightarrow> real \<Rightarrow> real \<Rightarrow> state" where
  "onMove st x y =
     (case currentMesh st of
        Some m \<Rightarrow>
          if isDragging st then
            let deltaX = x - px (previousMouse st);
                deltaY = y - py (previousMouse st);
                vel = \<lparr>px = deltaY * 0.01, py = deltaX * 0.01\<rparr>;
                rot = rotation m
            in st\<lparr> rotationVelocity := vel,
                    currentMesh := Some (m\<lparr>rotation :=
                       rot\<lparr>vy := vy rot + py vel, vx := vx rot + px vel\<rparr>\<rparr>),
                    previousMouse := \<lparr>px = x, py = y\<rparr> \<rparr>
          else st
      | None \<Rightarrow> st)"

text \<open>The test of \<^verbatim>\<open>onUp\<close>: \<^verbatim>\<open>timeDelta < 250 && dist < 5\<close>.\<close>

definition tap_test :: "state \<Rightarrow> int \<Rightarrow> real \<Rightarrow> real \<Rightarrow> bool" where
  "tap_test st now x y =
     (let timeDelta = now - downTime st;
          dist = sqrt ((x - px (downPos st))\<^sup>2 + (y - py (downPos st))\<^sup>2)
      in timeDelta < 250 \<and> dist < 5)"

definition onUp :: "state \<Rightarrow> int \<Rightarrow> real \<Rightarrow> real \<Rightarrow> state" where
  "onUp st now x y =
     (let st1 = st\<lparr>isDragging := False\<rparr>
      in if tap_test st1 now x y
         then st1\<lparr>currentScale := 1.1, targetScale := 1.0, clickFlashValue := 0.5\<rparr>
         else st1)"

text \<open>
  The touch listeners use the first contact point; \<^verbatim>\<open>touchend\<close> without a changed
  touch falls back to the last known position.
\<close>

definition onTouchStart :: "state \<Rightarrow> int \<Rightarrow> (real \<times> real) list \<Rightarrow> state" where
  "onTouchStart st now touches =
     (case touches of [] \<Rightarrow> st | (x, y) # _ \<Rightarrow> onDown st now x y)"

definition onTouchMove :: "state \<Rightarrow> (real \<times> real) list \<Rightarrow> state" where
  "onTouchMove st touches =
     (case touches of [] \<Rightarrow> st | (x, y) # _ \<Rightarrow> onMove st x y)"

definition onTouchEnd :: "state \<Rightarrow> int \<Rightarrow> (real \<times> real) list \<Rightarrow> state" where
  "onTouchEnd st now changedTouches =
     (case changedTouches of
        [] \<Rightarrow> onUp st now (px (previousMouse st)) (py (previousMouse st))
      | (x, y) # _ \<Rightarrow> onUp st now x y)"

section \<open>The frame step\<close>

text \<open>
  \<^verbatim>\<open>animate()\<close>, in the order of the source. \<open>now\<close> is \<^verbatim>\<open>clock.getElapsedTime()\<close> in
  seconds and \<open>r\<close> the random number a shape construction on this frame would draw.
  \<open>elapsed\<close> is computed once, before the cycle logic, and used by the scan logic after it.
\<close>

definition cycle_logic :: "state \<Rightarrow> real \<Rightarrow> real \<Rightarrow> real \<Rightarrow> state" where
  "cycle_logic st elapsed now r =
     (if elapsed > CYCLE_DURATION
      then (createLetter (st\<lparr>charIndex := (charIndex st + 1) mod length CHARS\<rparr>) r)
             \<lparr>meshStartTime := now\<rparr>
      else st)"

definition scan_logic :: "state \<Rightarrow> real \<Rightarrow> state" where
  "scan_logic st elapsed =
     (let progress = elapsed / CYCLE_DURATION;
          margin = 250.0;
          startY = geoTopY st + margin;
          endY = geoBottomY st - margin;
          currentScanY = lerp startY endY progress
      in st\<lparr>uScanY := currentScanY\<rparr>)"

definition rotate_mesh :: "vec3 \<Rightarrow> state \<Rightarrow> state" where
  "rotate_mesh d st =
     st\<lparr>currentMesh := map_option
          (\<lambda>m. m\<lparr>rotation := \<lparr>vx = vx (rotation m) + vx d,
                                vy = vy (rotation m) + vy d,
                                vz = vz (rotation m) + vz d\<rparr>\<rparr>) (currentMesh st)\<rparr>"

definition rotation_logic :: "state \<Rightarrow> state" where
  "rotation_logic st =
     (if \<not> isDragging st then
        let st1 = rotate_mesh \<lparr>vx = px (rotationVelocity st),
                               vy = py (rotationVelocity st), vz = 0\<rparr> st;
            st2 = st1\<lparr>rotationVelocity :=
                      \<lparr>px = px (rotationVelocity st1) * friction,
                       py = py (rotationVelocity st1) * friction\<rparr>\<rparr>
        in if \<bar>px (rotationVelocity st2)\<bar> < 0.001 \<and> \<bar>py (rotationVelocity st2)\<bar> < 0.001
           then rotate_mesh \<lparr>vx = 0.0002, vy = 0.0003, vz = 0.0001\<rparr> st2
           else st2
      else st)"

definition click_physics :: "state \<Rightarrow> state" where
  "click_physics st =
     (let cs = lerp (currentScale st) (targetScale st) 0.1;
          st1 = st\<lparr>currentScale := cs,
                   currentMesh := map_option
                     (\<lambda>m. m\<lparr>scale := \<lparr>vx = cs * 1.2, vy = cs * 0.8, vz = cs\<rparr>\<rparr>)
                     (currentMesh st)\<rparr>;
          fl = lerp (clickFlashValue st1) 0.0 0.05
      in st1\<lparr>clickFlashValue := fl, uClickFlash := fl\<rparr>)"

definition animate :: "state \<Rightarrow> real \<Rightarrow> real \<Rightarrow> state" where
  "animate st now r =
     (let elapsed = now - meshStartTime st;
          st1 = cycle_logic st elapsed now r
      in case currentMesh st1 of
           None \<Rightarrow> st1
         | Some _ \<Rightarrow> click_physics (rotation_logic (scan_logic st1 elapsed)))"

text \<open>
  The callback of \<^verbatim>\<open>loader.load\<close>: the font is stored, the first shape is built and the
  cycle starts at clock time \<open>t\<close>; the frame loop starts after it.
\<close>

definition font_loaded :: "state \<Rightarrow> font \<Rightarrow> real \<Rightarrow> real \<Rightarrow> state" where
  "font_loaded st fnt t r = (createLetter (st\<lparr>currentFont := Some fnt\<rparr>) r)\<lparr>meshStartTime := t\<rparr>"

section \<open>Events and runs\<close>

text \<open>
  Everything that can happen to the running page: the font arrives, a frame is drawn,
  or a mouse or touch listener fires. Handlers and frames are serialised by the
  single-threaded host, so a run is a list of events. The frame loop is started by the
  font callback, so a frame needs the font, and the font is loaded once.
\<close>

datatype event =
    FontLoaded font real real
  | Frame real real
  | MouseDown int real real
  | MouseMove real real
  | MouseUp int real real
  | TouchStart int "(real \<times> real) list"
  | TouchMove "(real \<times> real) list"
  | TouchEnd int "(real \<times> real) list"

fun fire :: "state \<Rightarrow> event \<Rightarrow> state" where
  "fire st (FontLoaded fnt t r) = font_loaded st fnt t r"
| "fire st (Frame now r) = animate st now r"
| "fire st (MouseDown now x y) = onDown st now x y"
| "fire st (MouseMove x y) = onMove st x y"
| "fire st (MouseUp now x y) = onUp st now x y"
| "fire st (TouchStart now ts) = onTouchStart st now ts"
| "fire st (TouchMove ts) = onTouchMove st ts"
| "fire st (TouchEnd now ts) = onTouchEnd st now ts"

fun enabled :: "state \<Rightarrow> event \<Rightarrow> bool" where
  "enabled st (FontLoaded fnt t r) = (currentFont st = None)"
| "enabled st (Frame now r) = (currentFont st \<noteq> None)"
| "enabled st _ = True"

inductive reachable :: "state \<Rightarrow> bool" where
  start: "reachable (init_state rot)"
| step: "reachable st \<Longrightarrow> enabled st e \<Longrightarrow> reachable (fire st e)"

fun run_events :: "state \<Rightarrow> event list \<Rightarrow> state" where
  "run_events st [] = st"
| "run_events st (e # es) = run_events (fire st e) es"

text \<open>An event that calls \<^verbatim>\<open>onDown\<close>.\<close>

fun is_down :: "event \<Rightarrow> bool" where
  "is_down (MouseDown now x y) = True"
| "is_down (TouchStart now ts) = (ts \<noteq> [])"
| "is_down _ = False"

text \<open>Consecutive frames, each with its clock reading and random draw.\<close>

fun run_frames :: "state \<Rightarrow> (real \<times> real) list \<Rightarrow> state" where
  "run_frames st [] = st"
| "run_frames st ((now, r) # fs) = run_frames (animate st now r) fs"

text \<open>
  The cycle controller as the specification words it, on the clock readings alone:
  a frame whose elapsed time in the current cycle exceeds the duration is a tick, and
  the cycle then starts again at that frame's time. \<open>cycle_ticks\<close> counts the ticks of a
  run and \<open>cycle_start\<close> is the cycle start after it.
\<close>

fun cycle_ticks :: "real \<Rightarrow> real list \<Rightarrow> nat" where
  "cycle_ticks start [] = 0"
| "cycle_ticks start (t # ts) =
     (if t - start > CYCLE_DURATION then Suc (cycle_ticks t ts) else cycle_ticks start ts)"

fun cycle_start :: "real \<Rightarrow> real list \<Rightarrow> real" where
  "cycle_start start [] = start"
| "cycle_start start (t # ts) =
     (if t - start > CYCLE_DURATION then cycle_start t ts else cycle_start start ts)"

text \<open>
  Clock readings that never go back and are at most \<open>g\<close> apart, counted from \<open>prev\<close>: an
  irregular but monotonic frame timestep with largest step \<open>g\<close>.
\<close>

fun gaps_le :: "real \<Rightarrow> real \<Rightarrow> real list \<Rightarrow> bool" where
  "gaps_le g prev [] = True"
| "gaps_le g prev (t # ts) = (prev \<le> t \<and> t - prev \<le> g \<and> gaps_le g t ts)"

section \<open>The fragment shader\<close>

text \<open>
  \<^verbatim>\<open>fragmentShader\<close>, with the GLSL built-ins it calls. The interpolated inputs of a
  fragment are a record; the uniforms are arguments. \<^verbatim>\<open>pow(x, 2.0)\<close> is \<open>x powr 2\<close>; both
  of its uses have a base that is not negative.
\<close>

record fragment =
  vPosition :: vec3
  vNormal :: vec3
  vViewPosition :: vec3

definition dot3 :: "vec3 \<Rightarrow> vec3 \<Rightarrow> real" where
  "dot3 a b = vx a * vx b + vy a * vy b + vz a * vz b"

definition normalize3 :: "vec3 \<Rightarrow> vec3" where
  "normalize3 v =
     (let len = sqrt (dot3 v v)
      in \<lparr>vx = vx v / len, vy = vy v / len, vz = vz v / len\<rparr>)"

definition clamp :: "real \<Rightarrow> real \<Rightarrow> real \<Rightarrow> real" where
  "clamp x lo hi = min (max x lo) hi"

definition smoothstep :: "real \<Rightarrow> real \<Rightarrow> real \<Rightarrow> real" where
  "smoothstep e0 e1 x =
     (let t = clamp ((x - e0) / (e1 - e0)) 0 1 in t * t * (3 - 2 * t))"

definition beam_intensity :: "real \<Rightarrow> real \<Rightarrow> real" where
  "beam_intensity posY scanY =
     (let dist = posY - scanY;
          spreadTop = 180.0;
          spreadBottom = 100.0;
          spread = (if dist > 0 then spreadTop else spreadBottom);
          beamIntensity = 1 - smoothstep 0 spread \<bar>dist\<bar>;
          beamIntensity = beamIntensity powr 2
      in beamIntensity * 0.6)"

definition NdotV :: "fragment \<Rightarrow> real" where
  "NdotV f = dot3 (normalize3 (vNormal f)) (normalize3 (vViewPosition f))"

definition edge_boost :: "fragment \<Rightarrow> real" where
  "edge_boost f =
     (let rim = 1 - max 0 (NdotV f);
          rim = rim powr 2
      in rim * 0.8)"

definition total_light :: "real \<Rightarrow> real \<Rightarrow> fragment \<Rightarrow> real" where
  "total_light scanY clickFlash f =
     (let beamIntensity = beam_intensity (vy (vPosition f)) scanY;
          edgeBoost = edge_boost f;
          totalLight = beamIntensity + (beamIntensity * edgeBoost * 2.0)
      in totalLight * (1 + clickFlash))"

definition fragment_main :: "vec3 \<Rightarrow> real \<Rightarrow> real \<Rightarrow> fragment \<Rightarrow> vec3 \<times> real" where
  "fragment_main beamColor scanY clickFlash f =
     (let totalLight = total_light scanY clickFlash f
      in (\<lparr>vx = vx beamColor * totalLight, vy = vy beamColor * totalLight,
           vz = vz beamColor * totalLight\<rparr>, 1.0))"

section \<open>Concrete inputs\<close>

text \<open>
  A font whose every glyph has the bounding box \<open>[0, 40] \<times> [0, 50] \<times> [0, 47]\<close>, a start
  rotation, and the page right after that font has loaded at clock time 0.
\<close>

definition ex_font :: font where
  "ex_font = (\<lambda>c. \<lparr>bmin = \<lparr>vx = 0, vy = 0, vz = 0\<rparr>, bmax = \<lparr>vx = 40, vy = 50, vz = 47\<rparr>\<rparr>)"

definition ex_rot :: vec3 where
  "ex_rot = \<lparr>vx = 0.5, vy = - 1, vz = 2\<rparr>"

definition ex_loaded :: state where
  "ex_loaded = font_loaded (init_state ex_rot) ex_font 0 0"

text \<open>
  The same page coasting after a slow touch drag of a twentieth of a pixel on each axis,
  released after a second: the velocity is below the drift threshold without being zero,
  as it also is late in the decay of any faster drag.
\<close>

definition ex_coasting :: state where
  "ex_coasting = run_events ex_loaded
     [TouchStart 1000 [(100, 100)], TouchMove [(100.05, 100.05)],
      TouchEnd 2000 [(100.05, 100.05)]]"

text \<open>A fragment seen edge-on and one seen face-on, both at height \<open>h\<close>.\<close>

definition ex_silhouette :: "real \<Rightarrow> fragment" where
  "ex_silhouette h =
     \<lparr>vPosition = \<lparr>vx = 0, vy = h, vz = 0\<rparr>, vNormal = \<lparr>vx = 1, vy = 0, vz = 0\<rparr>,
      vViewPosition = \<lparr>vx = 0, vy = 0, vz = 1\<rparr>\<rparr>"

definition ex_front :: "real \<Rightarrow> fragment" where
  "ex_front h =
     \<lparr>vPosition = \<lparr>vx = 0, vy = h, vz = 0\<rparr>, vNormal = \<lparr>vx = 0, vy = 0, vz = 1\<rparr>,
      vViewPosition = \<lparr>vx = 0, vy = 0, vz = 1\<rparr>\<rparr>"

text \<open>The loaded page after a press at (100, 100) and a drag to (150, 120).\<close>

definition ex_dragged :: state where
  "ex_dragged = onMove (onDown ex_loaded 1000 100 100) 150 120"

text \<open>A press at (100, 100) at 1000 ms, followed by events that are not presses.\<close>

definition ex_between :: "event list" where
  "ex_between = [MouseMove 101 100, Frame 1 0, TouchMove [(101, 101)]]"

definition ex_pressed :: state where
  "ex_pressed = run_events (onDown ex_loaded 1000 100 100) ex_between"

section \<open>Basic facts\<close>

lemma CHARS_eq: "CHARS = [''K'', ''S'', ''H'', ''T'', ''C'', ''L'', ''O'', ''M'']"
  by (simp add: CHARS_def split_chars_def trim_def is_ws_def)

lemma length_CHARS: "length CHARS = 8"
  by (simp add: CHARS_eq)

lemma createLetter_charIndex: "charIndex (createLetter st r) = charIndex st"
  by (simp add: createLetter_def Let_def split: option.splits)

lemma createLetter_meshStartTime: "meshStartTime (createLetter st r) = meshStartTime st"
  by (simp add: createLetter_def Let_def split: option.splits)

lemma createLetter_currentFont: "currentFont (createLetter st r) = currentFont st"
  by (simp add: createLetter_def Let_def split: option.splits)

lemma createLetter_mesh:
  "currentFont st = Some fnt \<Longrightarrow>
   currentMesh (createLetter st r) =
     Some \<lparr>glyph = nth_opt CHARS (charIndex st),
           rotation = (case currentMesh st of Some old \<Rightarrow> rotation old | None \<Rightarrow> currentRotation st),
           scale = \<lparr>vx = 1.2, vy = 0.8, vz = 1.0\<rparr>\<rparr>"
  by (simp add: createLetter_def Let_def split: option.splits)

lemma tail_charIndex:
  "charIndex (click_physics (rotation_logic (scan_logic st e))) = charIndex st"
  by (simp add: scan_logic_def rotation_logic_def click_physics_def rotate_mesh_def Let_def)

lemma tail_meshStartTime:
  "meshStartTime (click_physics (rotation_logic (scan_logic st e))) = meshStartTime st"
  by (simp add: scan_logic_def rotation_logic_def click_physics_def rotate_mesh_def Let_def)

lemma tail_currentFont:
  "currentFont (click_physics (rotation_logic (scan_logic st e))) = currentFont st"
  by (simp add: scan_logic_def rotation_logic_def click_physics_def rotate_mesh_def Let_def)

lemma tail_glyph:
  "map_option glyph (currentMesh (click_physics (rotation_logic (scan_logic st e))))
     = map_option glyph (currentMesh st)"
  by (cases "currentMesh st")
     (simp_all add: scan_logic_def rotation_logic_def click_physics_def rotate_mesh_def Let_def)

lemma animate_charIndex:
  "charIndex (animate st now r) =
     (if now - meshStartTime st > CYCLE_DURATION
      then (charIndex st + 1) mod length CHARS else charIndex st)"
  by (simp add: animate_def cycle_logic_def tail_charIndex createLetter_charIndex Let_def
      split: option.splits)

lemma animate_meshStartTime:
  "meshStartTime (animate st now r) =
     (if now - meshStartTime st > CYCLE_DURATION then now else meshStartTime st)"
  by (simp add: animate_def cycle_logic_def tail_meshStartTime Let_def split: option.splits)

lemma animate_currentFont: "currentFont (animate st now r) = currentFont st"
  by (simp add: animate_def cycle_logic_def tail_currentFont createLetter_currentFont Let_def
      split: option.splits)

lemma animate_glyph:
  assumes "currentFont st = Some fnt" and "now - meshStartTime st > CYCLE_DURATION"
  shows "map_option glyph (currentMesh (animate st now r))
           = Some (Some (CHARS ! ((charIndex st + 1) mod length CHARS)))"
proof -
  let ?st0 = "st\<lparr>charIndex := (charIndex st + 1) mod length CHARS\<rparr>"
  let ?st1 = "(createLetter ?st0 r)\<lparr>meshStartTime := now\<rparr>"
  have m: "currentMesh ?st1 =
      Some \<lparr>glyph = nth_opt CHARS ((charIndex st + 1) mod length CHARS),
            rotation = (case currentMesh st of Some old \<Rightarrow> rotation old | None \<Rightarrow> currentRotation st),
            scale = \<lparr>vx = 1.2, vy = 0.8, vz = 1.0\<rparr>\<rparr>"
    using assms(1) createLetter_mesh [of ?st0 fnt r] by (simp split: option.splits)
  have a: "animate st now r =
      click_physics (rotation_logic (scan_logic ?st1 (now - meshStartTime st)))"
    using assms(2) m by (simp add: animate_def cycle_logic_def Let_def)
  have "(charIndex st + 1) mod length CHARS < length CHARS"
    by (simp add: length_CHARS)
  then have n: "nth_opt CHARS ((charIndex st + 1) mod length CHARS)
      = Some (CHARS ! ((charIndex st + 1) mod length CHARS))"
    by (simp add: nth_opt_def)
  have "map_option glyph (currentMesh ?st1)
      = Some (nth_opt CHARS ((charIndex st + 1) mod length CHARS))"
    by (simp only: m option.map mesh.simps)
  then show ?thesis
    by (simp only: a tail_glyph n)
qed

lemma handlers_charIndex:
  "charIndex (onDown st t x y) = charIndex st"
  "charIndex (onMove st x y) = charIndex st"
  "charIndex (onUp st t x y) = charIndex st"
  "charIndex (onTouchStart st t ts) = charIndex st"
  "charIndex (onTouchMove st ts) = charIndex st"
  "charIndex (onTouchEnd st t ts) = charIndex st"
  by (simp_all add: onDown_def onMove_def onUp_def onTouchStart_def onTouchMove_def
      onTouchEnd_def Let_def split: option.splits list.splits)

lemma fire_charIndex:
  "charIndex (fire st e) = charIndex st \<or>
   charIndex (fire st e) = (charIndex st + 1) mod length CHARS"
  by (cases e) (simp_all add: handlers_charIndex animate_charIndex font_loaded_def
      createLetter_charIndex)

lemma reachable_charIndex: "reachable st \<Longrightarrow> charIndex st < length CHARS"
proof (induction rule: reachable.induct)
  case (start rot)
  show ?case by (simp add: init_state_def length_CHARS)
next
  case (step st e)
  have "(charIndex st + 1) mod length CHARS < length CHARS"
    by (simp add: length_CHARS)
  with step.IH fire_charIndex [of st e] show ?case by auto
qed

lemma ex_loaded_font: "currentFont ex_loaded = Some ex_font"
  by (simp add: ex_loaded_def font_loaded_def createLetter_currentFont init_state_def)

lemma ex_loaded_charIndex: "charIndex ex_loaded = 0"
  by (simp add: ex_loaded_def font_loaded_def createLetter_charIndex init_state_def)

lemma ex_loaded_meshStartTime: "meshStartTime ex_loaded = 0"
  by (simp add: ex_loaded_def font_loaded_def)

lemma ex_loaded_reachable: "reachable ex_loaded"
proof -
  have r0: "reachable (init_state ex_rot)" by (rule reachable.start)
  have "reachable (fire (init_state ex_rot) (FontLoaded ex_font 0 0))"
    by (rule reachable.step [OF r0]) (simp add: init_state_def)
  then show ?thesis by (simp add: ex_loaded_def)
qed

section \<open>The character set and the index\<close>

text \<open>
  Claim C7. The character set is the fixed sequence of the eight distinct characters
  K, S, H, T, C, L, O, M (the space of the configuration text is filtered out). In every
  reachable state the index is a valid position into it, and every event (font arrival,
  frame step, mouse and touch handlers) leaves the index alone or replaces it by
  \<open>(index + 1) mod N\<close>.
\<close>

theorem index_invariant:
  "CHARS = [''K'', ''S'', ''H'', ''T'', ''C'', ''L'', ''O'', ''M''] \<and> distinct CHARS \<and>
   length CHARS = 8 \<and>
   (\<forall>st. reachable st \<longrightarrow> charIndex st < length CHARS) \<and>
   (\<forall>st e. charIndex (fire st e) = charIndex st \<or>
            charIndex (fire st e) = (charIndex st + 1) mod length CHARS)"
  using reachable_charIndex fire_charIndex by (simp add: CHARS_eq)

theorem index_invariant_witness:
  "reachable (fire ex_loaded (Frame 2.5 0)) \<and>
   charIndex (fire ex_loaded (Frame 2.5 0)) = 1 \<and>
   charIndex (fire ex_loaded (Frame 2.5 0)) < length CHARS"
proof -
  have r2: "reachable (fire ex_loaded (Frame 2.5 0))"
    by (rule reachable.step [OF ex_loaded_reachable]) (simp add: ex_loaded_font)
  have "charIndex (fire ex_loaded (Frame 2.5 0)) = 1"
    by (simp add: animate_charIndex CYCLE_DURATION_def length_CHARS
        ex_loaded_charIndex ex_loaded_meshStartTime)
  with r2 index_invariant show ?thesis by simp
qed

lemma ex_loaded_eq:
  "ex_loaded =
     \<lparr> charIndex = 0,
       currentMesh = Some \<lparr>glyph = Some ''K'', rotation = \<lparr>vx = 0.5, vy = - 1, vz = 2\<rparr>,
                           scale = \<lparr>vx = 1.2, vy = 0.8, vz = 1.0\<rparr>\<rparr>,
       meshStartTime = 0, currentFont = Some ex_font,
       geoTopY = 25, geoBottomY = - 25, isDragging = False,
       previousMouse = \<lparr>px = 0, py = 0\<rparr>,
       rotationVelocity = \<lparr>px = 0, py = 0\<rparr>,
       currentRotation = \<lparr>vx = 0.5, vy = - 1, vz = 2\<rparr>,
       targetScale = 1, currentScale = 1, clickFlashValue = 0,
       downTime = 0, downPos = \<lparr>px = 0, py = 0\<rparr>,
       uBeamColor = ''#FF0000'', uScanY = 0, uClickFlash = 0,
       cameraZ = 45 / (2 * tan (camera_fov * (pi / 180) / 2)) + 40 \<rparr>"
  by (simp add: ex_loaded_def font_loaded_def createLetter_def init_state_def ex_font_def
      ex_rot_def nth_opt_def CHARS_eq BEAM_COLORS_def Let_def)

section \<open>The cycle controller\<close>

lemma run_frames_charIndex:
  "charIndex st < length CHARS \<Longrightarrow>
   charIndex (run_frames st fs)
     = (charIndex st + cycle_ticks (meshStartTime st) (map fst fs)) mod length CHARS"
proof (induction fs arbitrary: st)
  case Nil
  then show ?case by simp
next
  case (Cons f fs)
  obtain now r where f: "f = (now, r)" by (cases f)
  let ?st' = "animate st now r"
  have lt: "charIndex ?st' < length CHARS"
    using Cons.prems by (simp add: animate_charIndex length_CHARS)
  show ?case
  proof (cases "now - meshStartTime st > CYCLE_DURATION")
    case True
    then have "charIndex (run_frames st (f # fs))
        = ((charIndex st + 1) mod length CHARS + cycle_ticks now (map fst fs)) mod length CHARS"
      using Cons.IH [OF lt] by (simp add: f animate_charIndex animate_meshStartTime)
    also have "\<dots> = (charIndex st + Suc (cycle_ticks now (map fst fs))) mod length CHARS"
      by (simp add: mod_add_left_eq)
    finally show ?thesis using True by (simp add: f)
  next
    case False
    then show ?thesis
      using Cons.IH [OF lt] by (simp add: f animate_charIndex animate_meshStartTime)
  qed
qed

lemma run_frames_meshStartTime:
  "meshStartTime (run_frames st fs) = cycle_start (meshStartTime st) (map fst fs)"
proof (induction fs arbitrary: st)
  case Nil
  then show ?case by simp
next
  case (Cons f fs)
  obtain now r where f: "f = (now, r)" by (cases f)
  show ?case
    by (simp add: f Cons.IH animate_meshStartTime)
qed

lemma cycle_ticks_bound:
  "sorted (start # ts) \<Longrightarrow>
   real (cycle_ticks start ts) * CYCLE_DURATION \<le> last (start # ts) - start"
proof (induction ts arbitrary: start)
  case Nil
  then show ?case by simp
next
  case (Cons t ts)
  have st: "sorted (t # ts)" and le: "start \<le> t"
    using Cons.prems by simp_all
  show ?case
  proof (cases "t - start > CYCLE_DURATION")
    case True
    have "real (cycle_ticks t ts) * CYCLE_DURATION \<le> last (t # ts) - t"
      by (rule Cons.IH [OF st])
    with True show ?thesis
      by (simp add: algebra_simps)
  next
    case False
    have "sorted (start # ts)"
      using Cons.prems by auto
    then have "real (cycle_ticks start ts) * CYCLE_DURATION \<le> last (start # ts) - start"
      by (rule Cons.IH)
    moreover have "last (start # ts) \<le> last (start # t # ts)"
      using le by (cases ts) simp_all
    ultimately show ?thesis using False by simp
  qed
qed

lemma cycle_ticks_lower:
  "start \<le> prev \<Longrightarrow> prev - start \<le> CYCLE_DURATION \<Longrightarrow> gaps_le g prev ts \<Longrightarrow>
   last (prev # ts) - start \<le> real (cycle_ticks start ts) * (CYCLE_DURATION + g) + CYCLE_DURATION"
proof (induction ts arbitrary: start prev)
  case Nil
  then show ?case by simp
next
  case (Cons t ts)
  have g: "prev \<le> t" "t - prev \<le> g" "gaps_le g t ts"
    using Cons.prems(3) by simp_all
  show ?case
  proof (cases "t - start > CYCLE_DURATION")
    case True
    have "last (t # ts) - t \<le> real (cycle_ticks t ts) * (CYCLE_DURATION + g) + CYCLE_DURATION"
      by (rule Cons.IH [OF order_refl _ g(3)]) (simp add: CYCLE_DURATION_def)
    moreover have "t - start \<le> CYCLE_DURATION + g"
      using Cons.prems(2) g(2) by simp
    ultimately show ?thesis
      using True by (simp add: algebra_simps)
  next
    case False
    have "start \<le> t" using Cons.prems(1) g(1) by simp
    moreover have "t - start \<le> CYCLE_DURATION" using False by simp
    ultimately have "last (t # ts) - start
        \<le> real (cycle_ticks start ts) * (CYCLE_DURATION + g) + CYCLE_DURATION"
      using g(3) by (rule Cons.IH)
    then show ?thesis using False by simp
  qed
qed

text \<open>
  Claim C1. On a frame whose elapsed time in the current cycle exceeds the cycle duration
  (2.0 s), the index becomes \<open>(index + 1) mod N\<close>, the shape built on that frame shows the
  character at the new index, and the cycle start becomes the frame's time; on any other
  frame index and cycle start are unchanged. Over a run of frames with monotonic,
  otherwise arbitrary clock readings, the index has advanced by one (wrapping) for each
  tick of the cycle controller as the specification words it, the cycle start is the time
  of the last tick, and the ticks are more than a duration apart: \<open>k\<close> ticks need at least
  \<open>k\<close> durations of elapsed time, so no duration is counted twice. Nor is one missed: when
  consecutive readings are at most \<open>g\<close> apart, the elapsed time is at most \<open>k\<close> times
  (duration + \<open>g\<close>) plus one duration.
\<close>

theorem cycle_advance:
  assumes "currentFont st = Some fnt"
  shows "(CYCLE_DURATION < now - meshStartTime st \<longrightarrow>
            charIndex (animate st now r) = (charIndex st + 1) mod length CHARS \<and>
            map_option glyph (currentMesh (animate st now r))
              = Some (Some (CHARS ! ((charIndex st + 1) mod length CHARS))) \<and>
            meshStartTime (animate st now r) = now) \<and>
         (\<not> CYCLE_DURATION < now - meshStartTime st \<longrightarrow>
            charIndex (animate st now r) = charIndex st \<and>
            meshStartTime (animate st now r) = meshStartTime st) \<and>
         (charIndex st < length CHARS \<and> sorted (meshStartTime st # map fst fs) \<longrightarrow>
            charIndex (run_frames st fs)
              = (charIndex st + cycle_ticks (meshStartTime st) (map fst fs)) mod length CHARS \<and>
            meshStartTime (run_frames st fs) = cycle_start (meshStartTime st) (map fst fs) \<and>
            real (cycle_ticks (meshStartTime st) (map fst fs)) * CYCLE_DURATION
              \<le> last (meshStartTime st # map fst fs) - meshStartTime st) \<and>
         (gaps_le g (meshStartTime st) (map fst fs) \<longrightarrow>
            last (meshStartTime st # map fst fs) - meshStartTime st
              \<le> real (cycle_ticks (meshStartTime st) (map fst fs)) * (CYCLE_DURATION + g)
                  + CYCLE_DURATION)"
proof -
  have "0 \<le> CYCLE_DURATION"
    by (simp add: CYCLE_DURATION_def)
  then have low: "gaps_le g (meshStartTime st) (map fst fs) \<Longrightarrow>
      last (meshStartTime st # map fst fs) - meshStartTime st
        \<le> real (cycle_ticks (meshStartTime st) (map fst fs)) * (CYCLE_DURATION + g)
            + CYCLE_DURATION"
    using cycle_ticks_lower [of "meshStartTime st" "meshStartTime st" g "map fst fs"] by simp
  show ?thesis
    using assms animate_glyph [of st fnt now r] run_frames_charIndex [of st fs]
      run_frames_meshStartTime [of st fs]
      cycle_ticks_bound [of "meshStartTime st" "map fst fs"] low
    by (simp add: animate_charIndex animate_meshStartTime)
qed

theorem cycle_advance_witness:
  "currentFont ex_loaded = Some ex_font \<and>
   CYCLE_DURATION < 2.5 - meshStartTime ex_loaded \<and>
   charIndex (animate ex_loaded 2.5 0) = 1 \<and>
   map_option glyph (currentMesh (animate ex_loaded 2.5 0)) = Some (Some ''S'') \<and>
   meshStartTime (animate ex_loaded 2.5 0) = 2.5 \<and>
   \<not> CYCLE_DURATION < 2 - meshStartTime ex_loaded \<and>
   charIndex (animate ex_loaded 2 0) = 0 \<and>
   sorted (meshStartTime ex_loaded # map fst [(1, 0), (2.5, 0), (3, 0), (9, 0.5), (9, 0)]) \<and>
   charIndex (run_frames ex_loaded [(1, 0), (2.5, 0), (3, 0), (9, 0.5), (9, 0)]) = 2 \<and>
   meshStartTime (run_frames ex_loaded [(1, 0), (2.5, 0), (3, 0), (9, 0.5), (9, 0)]) = 9 \<and>
   gaps_le 6 (meshStartTime ex_loaded) (map fst [(1, 0), (2.5, 0), (3, 0), (9, 0.5), (9, 0)]) \<and>
   cycle_ticks (meshStartTime ex_loaded) (map fst [(1, 0), (2.5, 0), (3, 0), (9, 0.5), (9, 0)]) = 2"
  using cycle_advance [OF ex_loaded_font, of "2.5" 0 "[(1, 0), (2.5, 0), (3, 0), (9, 0.5), (9, 0)]" 6]
    cycle_advance [OF ex_loaded_font, of 2 0 "[]" 0]
  by (simp add: ex_loaded_font ex_loaded_charIndex ex_loaded_meshStartTime CYCLE_DURATION_def
      CHARS_eq)

section \<open>The scan driver\<close>

lemma scan_logic_uScanY:
  "uScanY (scan_logic st e)
     = lerp (geoTopY st + 250) (geoBottomY st - 250) (e / CYCLE_DURATION)"
  by (simp add: scan_logic_def Let_def)

lemma tail_uScanY:
  "uScanY (click_physics (rotation_logic st)) = uScanY st"
  by (simp add: rotation_logic_def click_physics_def rotate_mesh_def Let_def)

lemma animate_uScanY_same_cycle:
  assumes "currentMesh st \<noteq> None" and "\<not> CYCLE_DURATION < now - meshStartTime st"
  shows "uScanY (animate st now r) = uScanY (scan_logic st (now - meshStartTime st))"
  using assms by (auto simp add: animate_def cycle_logic_def Let_def tail_uScanY
      split: option.splits)

text \<open>
  Claim C2. The scan position pushed to the shader is the linear interpolation from
  \<open>topY + 250\<close> at progress 0 to \<open>bottomY - 250\<close> at progress 1, where progress is the
  elapsed time divided by the cycle duration; it does not increase with progress whenever
  \<open>bottomY \<le> topY\<close>; and it is the value a frame within the cycle pushes.
\<close>

theorem scan_position:
  "uScanY (scan_logic st (p * CYCLE_DURATION))
     = (geoTopY st + 250) + p * ((geoBottomY st - 250) - (geoTopY st + 250)) \<and>
   uScanY (scan_logic st 0) = geoTopY st + 250 \<and>
   uScanY (scan_logic st CYCLE_DURATION) = geoBottomY st - 250 \<and>
   (geoBottomY st \<le> geoTopY st \<and> p \<le> q \<longrightarrow>
      uScanY (scan_logic st (q * CYCLE_DURATION)) \<le> uScanY (scan_logic st (p * CYCLE_DURATION))) \<and>
   (currentMesh st \<noteq> None \<and> 0 \<le> p \<and> p \<le> 1 \<longrightarrow>
      uScanY (animate st (meshStartTime st + p * CYCLE_DURATION) r)
        = (geoTopY st + 250) + p * ((geoBottomY st - 250) - (geoTopY st + 250)))"
proof -
  have lin: "uScanY (scan_logic st (t * CYCLE_DURATION))
      = (geoTopY st + 250) + t * ((geoBottomY st - 250) - (geoTopY st + 250))" for t
    by (simp add: scan_logic_uScanY lerp_def CYCLE_DURATION_def algebra_simps)
  have mono: "uScanY (scan_logic st (q * CYCLE_DURATION))
      \<le> uScanY (scan_logic st (p * CYCLE_DURATION))"
    if "geoBottomY st \<le> geoTopY st" and "p \<le> q"
  proof -
    have "(q - p) * ((geoBottomY st - 250) - (geoTopY st + 250)) \<le> 0"
      using that by (intro mult_nonneg_nonpos) simp_all
    then show ?thesis unfolding lin [of p] lin [of q] by (simp add: algebra_simps)
  qed
  have fr: "uScanY (animate st (meshStartTime st + p * CYCLE_DURATION) r)
      = (geoTopY st + 250) + p * ((geoBottomY st - 250) - (geoTopY st + 250))"
    if "currentMesh st \<noteq> None" and "0 \<le> p" and "p \<le> 1"
  proof -
    have "\<not> CYCLE_DURATION < (meshStartTime st + p * CYCLE_DURATION) - meshStartTime st"
      using that by (simp add: CYCLE_DURATION_def)
    from animate_uScanY_same_cycle [OF that(1) this]
    show ?thesis by (simp add: lin)
  qed
  show ?thesis
    using lin [of p] lin [of 0] lin [of 1] mono fr by simp
qed

theorem scan_position_witness:
  "geoBottomY ex_loaded \<le> geoTopY ex_loaded \<and> (1 / 4 :: real) \<le> 3 / 4 \<and>
   uScanY (scan_logic ex_loaded (3 / 4 * CYCLE_DURATION)) = - 275 / 2 \<and>
   uScanY (scan_logic ex_loaded (1 / 4 * CYCLE_DURATION)) = 275 / 2 \<and>
   uScanY (scan_logic ex_loaded 0) = 275 \<and>
   uScanY (scan_logic ex_loaded CYCLE_DURATION) = - 275 \<and>
   currentMesh ex_loaded \<noteq> None \<and>
   uScanY (animate ex_loaded (meshStartTime ex_loaded + 1 / 4 * CYCLE_DURATION) 0) = 275 / 2"
  using scan_position [of ex_loaded "1 / 4" "3 / 4" 0] scan_position [of ex_loaded "3 / 4" 1 0]
  by (simp add: ex_loaded_eq)

section \<open>Shape replacement\<close>

lemma createLetter_currentRotation:
  "currentFont st = Some fnt \<Longrightarrow> currentMesh st = Some old \<Longrightarrow>
   currentRotation (createLetter st r) = rotation old"
  by (simp add: createLetter_def Let_def)

lemma cycle_logic_rotation:
  assumes "currentMesh st = Some old"
  shows "map_option rotation (currentMesh (cycle_logic st e now r)) = Some (rotation old)"
proof (cases "currentFont st")
  case None
  then show ?thesis using assms by (simp add: cycle_logic_def createLetter_def)
next
  case (Some fnt)
  let ?st0 = "st\<lparr>charIndex := (charIndex st + 1) mod length CHARS\<rparr>"
  have "currentMesh (createLetter ?st0 r) =
      Some \<lparr>glyph = nth_opt CHARS (charIndex ?st0),
            rotation = (case currentMesh ?st0 of Some old \<Rightarrow> rotation old
                        | None \<Rightarrow> currentRotation ?st0),
            scale = \<lparr>vx = 1.2, vy = 0.8, vz = 1.0\<rparr>\<rparr>"
    by (rule createLetter_mesh [of ?st0 fnt r]) (simp add: Some)
  then show ?thesis using assms by (simp add: cycle_logic_def)
qed

text \<open>
  Claim C4. When a shape is replaced, the rotation of the old shape is first copied into
  \<open>currentRotation\<close>, and the new shape is installed with exactly that rotation, on all
  three axes and whatever the angles are. This holds for the construction itself and for
  the replacement the cycle logic makes.
\<close>

theorem rotation_continuity:
  assumes "currentFont st = Some fnt" and "currentMesh st = Some old"
  shows "currentRotation (createLetter st r) = rotation old \<and>
         map_option rotation (currentMesh (createLetter st r)) = Some (rotation old) \<and>
         (CYCLE_DURATION < e \<longrightarrow>
            map_option rotation (currentMesh (cycle_logic st e now r)) = Some (rotation old))"
  using assms createLetter_mesh [of st fnt r] createLetter_currentRotation [of st fnt old r]
    cycle_logic_rotation [of st old e now r]
  by simp

lemma ex_dragged_facts:
  "currentFont ex_dragged = Some ex_font"
  "currentMesh ex_dragged = Some \<lparr>glyph = Some ''K'', rotation = \<lparr>vx = 0.7, vy = - 0.5, vz = 2\<rparr>,
                                   scale = \<lparr>vx = 1.2, vy = 0.8, vz = 1.0\<rparr>\<rparr>"
  "currentRotation ex_dragged = \<lparr>vx = 0.5, vy = - 1, vz = 2\<rparr>"
  by (simp_all add: ex_dragged_def onMove_def onDown_def ex_loaded_eq Let_def)

theorem rotation_continuity_witness:
  "currentFont ex_dragged = Some ex_font \<and>
   map_option rotation (currentMesh ex_dragged) = Some \<lparr>vx = 0.7, vy = - 0.5, vz = 2\<rparr> \<and>
   currentRotation ex_dragged = \<lparr>vx = 0.5, vy = - 1, vz = 2\<rparr> \<and>
   currentRotation (createLetter ex_dragged 0) = \<lparr>vx = 0.7, vy = - 0.5, vz = 2\<rparr> \<and>
   map_option rotation (currentMesh (createLetter ex_dragged 0))
     = Some \<lparr>vx = 0.7, vy = - 0.5, vz = 2\<rparr> \<and>
   CYCLE_DURATION < 3 \<and>
   map_option rotation (currentMesh (cycle_logic ex_dragged 3 3 0))
     = Some \<lparr>vx = 0.7, vy = - 0.5, vz = 2\<rparr>"
  using rotation_continuity [OF ex_dragged_facts(1) ex_dragged_facts(2), of 0 3 3]
  by (simp add: ex_dragged_facts CYCLE_DURATION_def)

section \<open>Taps\<close>

lemma createLetter_down:
  "downTime (createLetter st r) = downTime st" "downPos (createLetter st r) = downPos st"
  by (simp_all add: createLetter_def Let_def split: option.splits)

lemma tail_down:
  "downTime (click_physics (rotation_logic (scan_logic st e))) = downTime st"
  "downPos (click_physics (rotation_logic (scan_logic st e))) = downPos st"
  by (simp_all add: scan_logic_def rotation_logic_def click_physics_def rotate_mesh_def Let_def)

lemma animate_down:
  "downTime (animate st now r) = downTime st" "downPos (animate st now r) = downPos st"
  by (simp_all add: animate_def cycle_logic_def tail_down createLetter_down Let_def
      split: option.splits)

lemma onMove_down:
  "downTime (onMove st x y) = downTime st" "downPos (onMove st x y) = downPos st"
  by (simp_all add: onMove_def Let_def split: option.splits)

lemma onUp_down:
  "downTime (onUp st t x y) = downTime st" "downPos (onUp st t x y) = downPos st"
  by (simp_all add: onUp_def Let_def)

lemma fire_down:
  assumes "\<not> is_down e"
  shows "downTime (fire st e) = downTime st \<and> downPos (fire st e) = downPos st"
  using assms
  by (cases e) (simp_all add: font_loaded_def createLetter_down animate_down onMove_down
      onUp_down onTouchStart_def onTouchMove_def onTouchEnd_def split: list.splits)

lemma run_events_down:
  "\<forall>e\<in>set es. \<not> is_down e \<Longrightarrow>
   downTime (run_events st es) = downTime st \<and> downPos (run_events st es) = downPos st"
  by (induction es arbitrary: st) (simp_all add: fire_down)

lemma tap_test_after_down:
  assumes "\<forall>e\<in>set es. \<not> is_down e"
  shows "tap_test ((run_events (onDown st t0 x0 y0) es)\<lparr>isDragging := False\<rparr>) t1 x1 y1
           = (t1 - t0 < 250 \<and> sqrt ((x1 - x0)\<^sup>2 + (y1 - y0)\<^sup>2) < 5)"
  using run_events_down [OF assms, of "onDown st t0 x0 y0"]
  by (simp add: tap_test_def onDown_def Let_def)

text \<open>
  Claim C3. Take a press at time \<open>t0\<close> and position \<open>(x0, y0)\<close>, any events that are not
  another press, and the release at time \<open>t1\<close> and position \<open>(x1, y1)\<close>. The release is a tap
  exactly when \<open>t1 - t0 < 250\<close> and the Euclidean distance of the two positions is below 5,
  whatever else the state holds; exactly 250 ms or exactly 5 pixels is not a tap. A tap
  sets the scale to 1.1, the target scale to 1.0 and the flash to 0.5; any other release
  only ends the drag. The mouse and the touch listener both release through \<open>onUp\<close>.
\<close>

theorem tap_classification:
  assumes "\<forall>e\<in>set es. \<not> is_down e"
    and "st2 = run_events (onDown st t0 x0 y0) es"
    and "tap = (t1 - t0 < 250 \<and> sqrt ((x1 - x0)\<^sup>2 + (y1 - y0)\<^sup>2) < 5)"
  shows "tap_test (st2\<lparr>isDragging := False\<rparr>) t1 x1 y1 = tap \<and>
         onUp st2 t1 x1 y1 =
           (if tap
            then st2\<lparr>isDragging := False, currentScale := 1.1, targetScale := 1.0,
                     clickFlashValue := 0.5\<rparr>
            else st2\<lparr>isDragging := False\<rparr>) \<and>
         (t1 - t0 = 250 \<longrightarrow> onUp st2 t1 x1 y1 = st2\<lparr>isDragging := False\<rparr>) \<and>
         (sqrt ((x1 - x0)\<^sup>2 + (y1 - y0)\<^sup>2) = 5 \<longrightarrow>
            onUp st2 t1 x1 y1 = st2\<lparr>isDragging := False\<rparr>) \<and>
         fire st2 (MouseUp t1 x1 y1) = onUp st2 t1 x1 y1 \<and>
         fire st2 (TouchEnd t1 ((x1, y1) # others)) = onUp st2 t1 x1 y1"
  using tap_test_after_down [OF assms(1), of st t0 x0 y0 t1 x1 y1] assms(2,3)
  by (simp add: onUp_def onTouchEnd_def Let_def)

lemma sqrt_25: "sqrt 25 = 5"
  using real_sqrt_abs [of 5] by simp

theorem tap_classification_witness:
  "list_all (\<lambda>e. \<not> is_down e) ex_between \<and>
   onUp ex_pressed 1050 100 100
     = ex_pressed\<lparr>isDragging := False, currentScale := 1.1, targetScale := 1.0,
                  clickFlashValue := 0.5\<rparr> \<and>
   onUp ex_pressed 1250 100 100 = ex_pressed\<lparr>isDragging := False\<rparr> \<and>
   sqrt ((103 - 100)\<^sup>2 + (104 - 100)\<^sup>2) = 5 \<and>
   onUp ex_pressed 1050 103 104 = ex_pressed\<lparr>isDragging := False\<rparr>"
proof -
  have nd: "\<forall>e\<in>set ex_between. \<not> is_down e"
    by (simp add: ex_between_def)
  have e: "ex_pressed = run_events (onDown ex_loaded 1000 100 100) ex_between"
    by (simp add: ex_pressed_def)
  have s: "sqrt ((103 - 100)\<^sup>2 + (104 - 100)\<^sup>2) = 5"
    by (simp add: sqrt_25)
  show ?thesis
    using tap_classification [OF nd e refl, of 1050 100 100]
      tap_classification [OF nd e refl, of 1250 100 100]
      tap_classification [OF nd e refl, of 1050 103 104] nd s
    by (simp add: list_all_iff)
qed

section \<open>Inertia and idle drift\<close>

lemma cycle_logic_frame:
  "isDragging (cycle_logic st e now r) = isDragging st"
  "rotationVelocity (cycle_logic st e now r) = rotationVelocity st"
  by (simp_all add: cycle_logic_def createLetter_def Let_def split: option.splits)

lemma rotation_logic_idle:
  assumes "currentMesh st = Some m" and "\<not> isDragging st"
  shows "rotationVelocity (rotation_logic st)
           = \<lparr>px = px (rotationVelocity st) * friction, py = py (rotationVelocity st) * friction\<rparr>"
    and "map_option rotation (currentMesh (rotation_logic st)) =
           Some (if \<bar>px (rotationVelocity st) * friction\<bar> < 0.001 \<and>
                    \<bar>py (rotationVelocity st) * friction\<bar> < 0.001
                 then \<lparr>vx = vx (rotation m) + px (rotationVelocity st) + 0.0002,
                       vy = vy (rotation m) + py (rotationVelocity st) + 0.0003,
                       vz = vz (rotation m) + 0 + 0.0001\<rparr>
                 else \<lparr>vx = vx (rotation m) + px (rotationVelocity st),
                       vy = vy (rotation m) + py (rotationVelocity st),
                       vz = vz (rotation m) + 0\<rparr>)"
  using assms by (simp_all add: rotation_logic_def rotate_mesh_def Let_def)

lemma rotation_logic_dragging:
  "isDragging st \<Longrightarrow> rotation_logic st = st"
  by (simp add: rotation_logic_def)

lemma click_physics_frame:
  "rotationVelocity (click_physics st) = rotationVelocity st"
  "map_option rotation (currentMesh (click_physics st)) = map_option rotation (currentMesh st)"
  by (cases "currentMesh st"; simp add: click_physics_def Let_def)+

lemma scan_logic_frame:
  "rotationVelocity (scan_logic st e) = rotationVelocity st"
  "isDragging (scan_logic st e) = isDragging st"
  "currentMesh (scan_logic st e) = currentMesh st"
  by (simp_all add: scan_logic_def Let_def)

lemma animate_unfold_mesh:
  assumes "currentMesh st = Some m"
  shows "animate st now r = click_physics (rotation_logic (scan_logic
           (cycle_logic st (now - meshStartTime st) now r) (now - meshStartTime st)))"
proof -
  from cycle_logic_rotation [OF assms, of "now - meshStartTime st" now r]
  obtain m' where "currentMesh (cycle_logic st (now - meshStartTime st) now r) = Some m'"
    by (cases "currentMesh (cycle_logic st (now - meshStartTime st) now r)") simp_all
  then show ?thesis by (simp add: animate_def Let_def)
qed

text \<open>
  Claim C5, as amended. On a frame with a shape and no drag, the velocity is added to the
  rotation (x and y) and then multiplied by 0.99 on both axes; when both damped
  magnitudes are below 0.001 the drift (0.0002, 0.0003, 0.0001) is added as well, on top
  of the inertia step and not in its place. On a frame where dragging is active neither
  rotation nor velocity changes, so no drift is applied.
\<close>

theorem idle_rotation:
  assumes "currentMesh st = Some m"
  shows "(\<not> isDragging st \<longrightarrow>
            rotationVelocity (animate st now r)
              = \<lparr>px = px (rotationVelocity st) * friction,
                 py = py (rotationVelocity st) * friction\<rparr> \<and>
            map_option rotation (currentMesh (animate st now r)) =
              Some (if \<bar>px (rotationVelocity st) * friction\<bar> < 0.001 \<and>
                       \<bar>py (rotationVelocity st) * friction\<bar> < 0.001
                    then \<lparr>vx = vx (rotation m) + px (rotationVelocity st) + 0.0002,
                          vy = vy (rotation m) + py (rotationVelocity st) + 0.0003,
                          vz = vz (rotation m) + 0 + 0.0001\<rparr>
                    else \<lparr>vx = vx (rotation m) + px (rotationVelocity st),
                          vy = vy (rotation m) + py (rotationVelocity st),
                          vz = vz (rotation m) + 0\<rparr>)) \<and>
         (isDragging st \<longrightarrow>
            rotationVelocity (animate st now r) = rotationVelocity st \<and>
            map_option rotation (currentMesh (animate st now r)) = Some (rotation m))"
proof -
  let ?e = "now - meshStartTime st"
  let ?c = "scan_logic (cycle_logic st ?e now r) ?e"
  have a: "animate st now r = click_physics (rotation_logic ?c)"
    by (rule animate_unfold_mesh [OF assms])
  from cycle_logic_rotation [OF assms, of ?e now r]
  obtain m' where m': "currentMesh ?c = Some m'" and rot: "rotation m' = rotation m"
    by (cases "currentMesh (cycle_logic st ?e now r)") (auto simp add: scan_logic_frame)
  have v: "rotationVelocity ?c = rotationVelocity st" and d: "isDragging ?c = isDragging st"
    by (simp_all add: scan_logic_frame cycle_logic_frame)
  show ?thesis
  proof (cases "isDragging st")
    case True
    then have "rotation_logic ?c = ?c"
      using d by (simp add: rotation_logic_dragging)
    then show ?thesis
      using True by (simp add: a click_physics_frame v m' rot)
  next
    case False
    then have nd: "\<not> isDragging ?c" using d by simp
    have r1: "rotationVelocity (rotation_logic ?c)
        = \<lparr>px = px (rotationVelocity st) * friction,
           py = py (rotationVelocity st) * friction\<rparr>"
      using rotation_logic_idle(1) [OF m' nd] by (simp only: v)
    have r2: "map_option rotation (currentMesh (rotation_logic ?c)) =
        Some (if \<bar>px (rotationVelocity st) * friction\<bar> < 0.001 \<and>
                 \<bar>py (rotationVelocity st) * friction\<bar> < 0.001
              then \<lparr>vx = vx (rotation m) + px (rotationVelocity st) + 0.0002,
                    vy = vy (rotation m) + py (rotationVelocity st) + 0.0003,
                    vz = vz (rotation m) + 0 + 0.0001\<rparr>
              else \<lparr>vx = vx (rotation m) + px (rotationVelocity st),
                    vy = vy (rotation m) + py (rotationVelocity st),
                    vz = vz (rotation m) + 0\<rparr>)"
      using rotation_logic_idle(2) [OF m' nd] by (simp only: v rot)
    show ?thesis
      using False by (simp only: a click_physics_frame r1 r2) simp
  qed
qed

lemma ex_coasting_eq:
  "ex_coasting =
     ex_loaded\<lparr> currentMesh := Some \<lparr>glyph = Some ''K'',
                       rotation = \<lparr>vx = 0.5005, vy = - 0.9995, vz = 2\<rparr>,
                       scale = \<lparr>vx = 1.2, vy = 0.8, vz = 1.0\<rparr>\<rparr>,
                 previousMouse := \<lparr>px = 100.05, py = 100.05\<rparr>,
                 rotationVelocity := \<lparr>px = 0.0005, py = 0.0005\<rparr>,
                 downTime := 1000, downPos := \<lparr>px = 100, py = 100\<rparr> \<rparr>"
  by (simp add: ex_coasting_def onTouchStart_def onTouchMove_def onTouchEnd_def onDown_def
      onMove_def onUp_def tap_test_def ex_loaded_eq Let_def)

lemma ex_coasting_mesh:
  "currentMesh ex_coasting = Some \<lparr>glyph = Some ''K'',
     rotation = \<lparr>vx = 0.5005, vy = - 0.9995, vz = 2\<rparr>,
     scale = \<lparr>vx = 1.2, vy = 0.8, vz = 1.0\<rparr>\<rparr>"
  by (simp add: ex_coasting_eq)

theorem idle_rotation_witness:
  "\<not> isDragging ex_coasting \<and>
   map_option rotation (currentMesh ex_coasting)
     = Some \<lparr>vx = 0.5005, vy = - 0.9995, vz = 2\<rparr> \<and>
   rotationVelocity ex_coasting = \<lparr>px = 0.0005, py = 0.0005\<rparr> \<and>
   rotationVelocity (animate ex_coasting 1 0) = \<lparr>px = 0.000495, py = 0.000495\<rparr> \<and>
   map_option rotation (currentMesh (animate ex_coasting 1 0))
     = Some \<lparr>vx = 0.5012, vy = - 0.9987, vz = 2.0001\<rparr> \<and>
   isDragging (onDown ex_coasting 0 1 1) \<and>
   map_option rotation (currentMesh (animate (onDown ex_coasting 0 1 1) 1 0))
     = Some \<lparr>vx = 0.5005, vy = - 0.9995, vz = 2\<rparr>"
proof -
  have m2: "currentMesh (onDown ex_coasting 0 1 1)
      = Some \<lparr>glyph = Some ''K'', rotation = \<lparr>vx = 0.5005, vy = - 0.9995, vz = 2\<rparr>,
                           scale = \<lparr>vx = 1.2, vy = 0.8, vz = 1.0\<rparr>\<rparr>"
    by (simp add: onDown_def ex_coasting_mesh)
  show ?thesis
    using idle_rotation [OF ex_coasting_mesh, of 1 0] idle_rotation [OF m2, of 1 0]
    by (simp add: ex_coasting_mesh friction_def onDown_def)
       (simp add: ex_coasting_eq ex_loaded_eq)
qed

text \<open>
  The claim as first stated, with the drift in place of the inertia step, fails on a shape
  coasting at velocity (0.0005, 0.0005): the frame adds the velocity and then the drift.
\<close>

theorem idle_drift_counterexample:
  "\<not> isDragging ex_coasting \<and>
   \<bar>px (rotationVelocity ex_coasting) * friction\<bar> < 0.001 \<and>
   \<bar>py (rotationVelocity ex_coasting) * friction\<bar> < 0.001 \<and>
   map_option rotation (currentMesh ex_coasting)
     = Some \<lparr>vx = 0.5005, vy = - 0.9995, vz = 2\<rparr> \<and>
   map_option rotation (currentMesh (animate ex_coasting 1 0))
     = Some \<lparr>vx = 0.5005 + 0.0005 + 0.0002, vy = - 0.9995 + 0.0005 + 0.0003,
             vz = 2 + 0.0001\<rparr> \<and>
   map_option rotation (currentMesh (animate ex_coasting 1 0))
     \<noteq> Some \<lparr>vx = 0.5005 + 0.0002, vy = - 0.9995 + 0.0003, vz = 2 + 0.0001\<rparr>"
  by (simp add: ex_coasting_eq ex_loaded_eq animate_def cycle_logic_def scan_logic_def
      rotation_logic_def rotate_mesh_def click_physics_def friction_def CYCLE_DURATION_def
      Let_def)

section \<open>The cycle boundary\<close>

lemma animate_mesh_after_tick:
  assumes "currentFont st = Some fnt" and "CYCLE_DURATION < now - meshStartTime st"
  shows "currentMesh (animate st now r) \<noteq> None"
  using animate_glyph [OF assms, of r] by auto

lemma animate_at_cycle_start:
  assumes "currentMesh st \<noteq> None" and "now = meshStartTime st"
  shows "uScanY (animate st now r') = geoTopY st + 250"
proof -
  have "\<not> CYCLE_DURATION < now - meshStartTime st"
    using assms(2) by (simp add: CYCLE_DURATION_def)
  from animate_uScanY_same_cycle [OF assms(1) this]
  show ?thesis using assms(2) by (simp add: scan_logic_uScanY lerp_def)
qed

lemma animate_at_cycle_end:
  assumes "currentMesh st \<noteq> None" and "now - meshStartTime st = CYCLE_DURATION"
  shows "uScanY (animate st now r) = geoBottomY st - 250"
proof -
  have "\<not> CYCLE_DURATION < now - meshStartTime st"
    using assms(2) by simp
  from animate_uScanY_same_cycle [OF assms(1) this]
  show ?thesis using assms(2) by (simp add: scan_logic_uScanY lerp_def CYCLE_DURATION_def)
qed

text \<open>
  Claim C6, as amended. With starting index 0, a frame whose elapsed cycle time strictly
  exceeds 2.0 s advances the index to 1 and restarts the cycle at the frame's time, so
  that the scan position is \<open>topY + 250\<close> of the new shape's bounds at elapsed time 0 of the
  new cycle. A frame at elapsed time exactly 2.0 s does not advance: the index stays 0 and
  the scan position is \<open>bottomY - 250\<close>.
\<close>

theorem cycle_boundary:
  assumes "currentFont st = Some fnt" and "charIndex st = 0"
  shows "(CYCLE_DURATION < now - meshStartTime st \<longrightarrow>
            charIndex (animate st now r) = 1 \<and>
            meshStartTime (animate st now r) = now \<and>
            uScanY (animate (animate st now r) now r') = geoTopY (animate st now r) + 250) \<and>
         (now - meshStartTime st = CYCLE_DURATION \<and> currentMesh st \<noteq> None \<longrightarrow>
            charIndex (animate st now r) = 0 \<and>
            uScanY (animate st now r) = geoBottomY st - 250)"
proof -
  have tick: "charIndex (animate st now r) = 1 \<and> meshStartTime (animate st now r) = now \<and>
      uScanY (animate (animate st now r) now r') = geoTopY (animate st now r) + 250"
    if t: "CYCLE_DURATION < now - meshStartTime st"
  proof -
    have i: "charIndex (animate st now r) = 1"
      using t assms(2) by (simp add: animate_charIndex length_CHARS)
    have s: "meshStartTime (animate st now r) = now"
      using t by (simp add: animate_meshStartTime)
    have m: "currentMesh (animate st now r) \<noteq> None"
      by (rule animate_mesh_after_tick [OF assms(1) t])
    from animate_at_cycle_start [OF m s [symmetric], of r'] i s show ?thesis by simp
  qed
  have stay: "charIndex (animate st now r) = 0 \<and> uScanY (animate st now r) = geoBottomY st - 250"
    if "now - meshStartTime st = CYCLE_DURATION" and "currentMesh st \<noteq> None"
    using that assms(2) animate_at_cycle_end [OF that(2) that(1), of r]
    by (simp add: animate_charIndex)
  from tick stay show ?thesis by blast
qed

lemma ex_loaded_mesh: "currentMesh ex_loaded \<noteq> None"
  by (simp add: ex_loaded_eq)

theorem cycle_boundary_witness:
  "currentFont ex_loaded = Some ex_font \<and> charIndex ex_loaded = 0 \<and>
   CYCLE_DURATION < 2.5 - meshStartTime ex_loaded \<and>
   charIndex (animate ex_loaded 2.5 0) = 1 \<and>
   meshStartTime (animate ex_loaded 2.5 0) = 2.5 \<and>
   uScanY (animate (animate ex_loaded 2.5 0) 2.5 0) = geoTopY (animate ex_loaded 2.5 0) + 250 \<and>
   2 - meshStartTime ex_loaded = CYCLE_DURATION \<and> currentMesh ex_loaded \<noteq> None \<and>
   charIndex (animate ex_loaded 2 0) = 0 \<and>
   uScanY (animate ex_loaded 2 0) = - 275"
  using cycle_boundary [OF ex_loaded_font ex_loaded_charIndex, of "2.5" 0 0]
    cycle_boundary [OF ex_loaded_font ex_loaded_charIndex, of 2 0 0] ex_loaded_mesh
  by (simp add: ex_loaded_font ex_loaded_charIndex ex_loaded_meshStartTime CYCLE_DURATION_def)
     (simp add: ex_loaded_eq)

text \<open>
  The scenario as first stated fails at an elapsed time of exactly 2.0 s: the test is
  strict, the index stays 0 and the scan position is at the bottom of its sweep.
\<close>

theorem cycle_boundary_counterexample:
  "charIndex ex_loaded = 0 \<and> 2.0 - meshStartTime ex_loaded = CYCLE_DURATION \<and>
   charIndex (animate ex_loaded 2.0 0) = 0 \<and>
   charIndex (animate ex_loaded 2.0 0) \<noteq> 1 \<and>
   geoTopY (animate ex_loaded 2.0 0) + 250 = 275 \<and>
   uScanY (animate ex_loaded 2.0 0) = - 275 \<and>
   uScanY (animate ex_loaded 2.0 0) \<noteq> geoTopY (animate ex_loaded 2.0 0) + 250"
  by (simp add: ex_loaded_eq animate_def cycle_logic_def scan_logic_def
      rotation_logic_def rotate_mesh_def click_physics_def friction_def CYCLE_DURATION_def
      lerp_def Let_def)

lemma tail_geo:
  "geoTopY (click_physics (rotation_logic (scan_logic st e))) = geoTopY st"
  "geoBottomY (click_physics (rotation_logic (scan_logic st e))) = geoBottomY st"
  by (simp_all add: scan_logic_def rotation_logic_def click_physics_def rotate_mesh_def Let_def)

text \<open>
  On the advancing frame itself the scan logic still uses the elapsed time measured from
  the old cycle start, so the progress it interpolates with is above 1 and the position
  pushed for the new shape lies below \<open>bottomY - 250\<close>.
\<close>

lemma advancing_frame_scan:
  assumes "currentFont st = Some fnt" and "CYCLE_DURATION < now - meshStartTime st"
  shows "uScanY (animate st now r)
           = lerp (geoTopY (animate st now r) + 250) (geoBottomY (animate st now r) - 250)
               ((now - meshStartTime st) / CYCLE_DURATION)"
proof -
  let ?e = "now - meshStartTime st"
  let ?st1 = "cycle_logic st ?e now r"
  have "currentMesh (animate st now r) \<noteq> None"
    by (rule animate_mesh_after_tick [OF assms])
  then have a: "animate st now r = click_physics (rotation_logic (scan_logic ?st1 ?e))"
    by (auto simp add: animate_def Let_def split: option.splits)
  show ?thesis
    by (simp only: a tail_geo tail_uScanY scan_logic_uScanY)
qed

lemma advancing_frame_scan_example:
  "uScanY (animate ex_loaded 2.5 0) = - 825 / 2"
  using advancing_frame_scan [OF ex_loaded_font, of "2.5" 0]
  by (simp add: ex_loaded_meshStartTime CYCLE_DURATION_def lerp_def)
     (simp add: animate_def cycle_logic_def createLetter_def ex_loaded_eq ex_font_def
       CYCLE_DURATION_def tail_geo Let_def)

section \<open>Camera fit\<close>

lemma tan_half_fov_pos: "0 < tan (camera_fov * (pi / 180) / 2)"
proof -
  have e: "camera_fov * (pi / 180) / 2 = pi / 8"
    by (simp add: camera_fov_def)
  have "0 < tan (pi / 8)"
    by (rule tan_gt_zero) simp_all
  then show ?thesis by (simp only: e)
qed

lemma createLetter_cameraZ:
  "currentFont st = Some fnt \<Longrightarrow>
   cameraZ (createLetter st r)
     = (0.9 * (vy (bmax (fnt (nth_opt CHARS (charIndex st))))
               - vy (bmin (fnt (nth_opt CHARS (charIndex st))))))
       / (2 * tan (camera_fov * (pi / 180) / 2)) + 40"
  by (simp add: createLetter_def Let_def split: option.splits)

text \<open>
  Claim C8, as amended. Every shape construction sets the camera's z position to
  \<open>(0.9 * sizeY) / (2 * tan (fov / 2)) + 40\<close>, where \<open>sizeY\<close> is the vertical extent of the
  glyph's bounding box (before the shape is scaled) and \<open>fov\<close> is the camera's 45 degrees
  in radians; the tangent is positive, so the quotient is a proper division.
\<close>

theorem camera_fit:
  assumes "currentFont st = Some fnt"
    and "bx = fnt (nth_opt CHARS (charIndex st))"
    and "sizeY = vy (bmax bx) - vy (bmin bx)"
    and "fov = camera_fov * (pi / 180)"
  shows "cameraZ (createLetter st r) = (0.9 * sizeY) / (2 * tan (fov / 2)) + 40 \<and>
         0 < tan (fov / 2)"
  unfolding assms(2-4)
  using createLetter_cameraZ [OF assms(1), of r] tan_half_fov_pos
  by simp

theorem camera_fit_witness:
  "currentFont ex_loaded = Some ex_font \<and>
   vy (bmax (ex_font (nth_opt CHARS (charIndex ex_loaded))))
     - vy (bmin (ex_font (nth_opt CHARS (charIndex ex_loaded)))) = 50 \<and>
   cameraZ (createLetter ex_loaded 0)
     = (0.9 * 50) / (2 * tan (camera_fov * (pi / 180) / 2)) + 40"
  using camera_fit [OF ex_loaded_font refl refl refl, of 0]
  by (simp add: ex_loaded_font ex_font_def)

text \<open>
  The claim as first stated, without the offset of 40, fails for the example font, whose
  glyphs are 50 units high.
\<close>

theorem camera_fit_counterexample:
  "vy (bmax (ex_font (Some ''K''))) - vy (bmin (ex_font (Some ''K''))) = 50 \<and>
   cameraZ (createLetter ex_loaded 0)
     = (0.9 * 50) / (2 * tan (camera_fov * (pi / 180) / 2)) + 40 \<and>
   cameraZ (createLetter ex_loaded 0)
     \<noteq> (0.9 * 50) / (2 * tan (camera_fov * (pi / 180) / 2))"
  by (simp add: ex_loaded_eq createLetter_def ex_font_def Let_def)

section \<open>Before the font has loaded\<close>

lemma onMove_no_mesh: "currentMesh st = None \<Longrightarrow> onMove st x y = st"
  by (simp add: onMove_def)

lemma tap_fields:
  assumes "t1 - t0 < 250" and "sqrt ((x1 - x0)\<^sup>2 + (y1 - y0)\<^sup>2) < 5"
  shows "currentScale (onUp (onDown st t0 x0 y0) t1 x1 y1) = 1.1"
    and "targetScale (onUp (onDown st t0 x0 y0) t1 x1 y1) = 1.0"
    and "clickFlashValue (onUp (onDown st t0 x0 y0) t1 x1 y1) = 0.5"
    and "currentMesh (onUp (onDown st t0 x0 y0) t1 x1 y1) = currentMesh st"
    and "currentFont (onUp (onDown st t0 x0 y0) t1 x1 y1) = currentFont st"
  using assms by (simp_all add: onUp_def onDown_def tap_test_def Let_def)

lemma font_loaded_fields:
  "currentScale (font_loaded st fnt t r) = currentScale st"
  "targetScale (font_loaded st fnt t r) = targetScale st"
  "clickFlashValue (font_loaded st fnt t r) = clickFlashValue st"
  "meshStartTime (font_loaded st fnt t r) = t"
  "uClickFlash (font_loaded st fnt t r) = 0"
  "map_option scale (currentMesh (font_loaded st fnt t r)) = Some \<lparr>vx = 1.2, vy = 0.8, vz = 1.0\<rparr>"
  by (simp_all add: font_loaded_def createLetter_def Let_def split: option.splits)

lemma first_frame:
  assumes "currentMesh st \<noteq> None" and "\<not> CYCLE_DURATION < now - meshStartTime st"
  shows "currentScale (animate st now r) = lerp (currentScale st) (targetScale st) 0.1"
    and "uClickFlash (animate st now r) = lerp (clickFlashValue st) 0 0.05"
    and "map_option scale (currentMesh (animate st now r))
           = Some \<lparr>vx = lerp (currentScale st) (targetScale st) 0.1 * 1.2,
                   vy = lerp (currentScale st) (targetScale st) 0.1 * 0.8,
                   vz = lerp (currentScale st) (targetScale st) 0.1\<rparr>"
  using assms
  by (auto simp add: animate_def cycle_logic_def scan_logic_def rotation_logic_def
      rotate_mesh_def click_physics_def Let_def split: option.splits)

text \<open>
  Claim C10. While no font has loaded and no shape exists, the handlers already act on
  the state. A press sets the dragging flag and zeroes the velocity. A press and release
  within the tap thresholds sets the scale to 1.1, the target scale to 1.0 and the flash
  to 0.5, and, no frame running to let them decay, these values reach the first shape:
  the first frame after loading draws it with scale factor 1.09 and flash 0.475. A move
  changes nothing at all, dragging or not.
\<close>

theorem handlers_before_load:
  assumes "currentFont st = None" and "currentMesh st = None"
    and "pressed = onDown st t0 x0 y0"
    and "tapped = onUp pressed t1 x1 y1"
    and "drawn = animate (font_loaded tapped fnt t r) now r'"
  shows "isDragging pressed \<and> rotationVelocity pressed = \<lparr>px = 0, py = 0\<rparr> \<and>
         onMove st x y = st \<and> onMove pressed x y = pressed \<and>
         (t1 - t0 < 250 \<and> sqrt ((x1 - x0)\<^sup>2 + (y1 - y0)\<^sup>2) < 5 \<longrightarrow>
            currentScale tapped = 1.1 \<and> targetScale tapped = 1.0 \<and>
            clickFlashValue tapped = 0.5 \<and> currentMesh tapped = None \<and>
            (\<not> CYCLE_DURATION < now - t \<longrightarrow>
               currentScale drawn = 1.09 \<and> uClickFlash drawn = 0.475 \<and>
               map_option scale (currentMesh drawn)
                 = Some \<lparr>vx = 1.09 * 1.2, vy = 1.09 * 0.8, vz = 1.09\<rparr>))"
proof -
  have p: "isDragging pressed \<and> rotationVelocity pressed = \<lparr>px = 0, py = 0\<rparr>"
    by (simp add: assms(3) onDown_def)
  have pm: "currentMesh pressed = None"
    by (simp add: assms(2,3) onDown_def)
  have mv: "onMove st x y = st \<and> onMove pressed x y = pressed"
    by (simp add: onMove_no_mesh assms(2) pm)
  have tap: "currentScale tapped = 1.1 \<and> targetScale tapped = 1.0 \<and>
      clickFlashValue tapped = 0.5 \<and> currentMesh tapped = None \<and>
      (\<not> CYCLE_DURATION < now - t \<longrightarrow>
         currentScale drawn = 1.09 \<and> uClickFlash drawn = 0.475 \<and>
         map_option scale (currentMesh drawn)
           = Some \<lparr>vx = 1.09 * 1.2, vy = 1.09 * 0.8, vz = 1.09\<rparr>)"
    if th: "t1 - t0 < 250" "sqrt ((x1 - x0)\<^sup>2 + (y1 - y0)\<^sup>2) < 5"
  proof -
    note tf = tap_fields [OF th, of st, folded assms(3), folded assms(4)]
    let ?l = "font_loaded tapped fnt t r"
    have lm: "currentMesh ?l \<noteq> None"
      using font_loaded_fields(6) [of tapped fnt t r] by auto
    have d: "currentScale drawn = 1.09 \<and> uClickFlash drawn = 0.475 \<and>
        map_option scale (currentMesh drawn)
          = Some \<lparr>vx = 1.09 * 1.2, vy = 1.09 * 0.8, vz = 1.09\<rparr>"
      if "\<not> CYCLE_DURATION < now - t"
    proof -
      have n: "\<not> CYCLE_DURATION < now - meshStartTime ?l"
        using that by (simp add: font_loaded_fields)
      show ?thesis
        unfolding assms(5)
        by (simp add: first_frame [OF lm n] font_loaded_fields tf lerp_def)
    qed
    show ?thesis using tf(1-4) assms(2) d by simp
  qed
  from p mv tap show ?thesis by blast
qed

theorem handlers_before_load_witness:
  "currentFont (init_state ex_rot) = None \<and> currentMesh (init_state ex_rot) = None \<and>
   isDragging (onDown (init_state ex_rot) 1000 100 100) \<and>
   onMove (onDown (init_state ex_rot) 1000 100 100) 150 120
     = onDown (init_state ex_rot) 1000 100 100 \<and>
   (1050 - 1000 < (250 :: int)) \<and> sqrt ((100 - 100)\<^sup>2 + (100 - 100)\<^sup>2) < 5 \<and>
   clickFlashValue (onUp (onDown (init_state ex_rot) 1000 100 100) 1050 100 100) = 0.5 \<and>
   \<not> CYCLE_DURATION < 0 - 0 \<and>
   uClickFlash (animate (font_loaded (onUp (onDown (init_state ex_rot) 1000 100 100)
       1050 100 100) ex_font 0 0) 0 0) = 0.475 \<and>
   map_option scale (currentMesh (animate (font_loaded (onUp (onDown (init_state ex_rot)
       1000 100 100) 1050 100 100) ex_font 0 0) 0 0))
     = Some \<lparr>vx = 1.09 * 1.2, vy = 1.09 * 0.8, vz = 1.09\<rparr>"
proof -
  have f: "currentFont (init_state ex_rot) = None" and m: "currentMesh (init_state ex_rot) = None"
    by (simp_all add: init_state_def)
  show ?thesis
    using handlers_before_load [where st = "init_state ex_rot" and ?t0.0 = 1000
        and ?x0.0 = 100 and ?y0.0 = 100 and ?t1.0 = 1050 and ?x1.0 = 100 and ?y1.0 = 100
        and fnt = ex_font and t = 0 and r = 0 and now = 0 and r' = 0 and x = 150 and y = 120,
        OF f m refl refl refl]
    by (simp add: f m CYCLE_DURATION_def)
qed

section \<open>The shading formula\<close>

lemma cubic_mono:
  fixes a b :: real
  assumes "0 \<le> a" and "a \<le> b" and "b \<le> 1"
  shows "a * a * (3 - 2 * a) \<le> b * b * (3 - 2 * b)"
proof -
  have a2: "a * a \<le> a" using assms by (simp add: mult_left_le)
  have b2: "b * b \<le> b" using assms by (simp add: mult_left_le)
  have ab1: "a * b \<le> a" using assms by (simp add: mult_left_le)
  have ab2: "a * b \<le> b" using assms by (simp add: mult_left_le_one_le)
  have "0 \<le> 3 * (a + b) - 2 * (a * a + a * b + b * b)"
    using a2 b2 ab1 ab2 by simp
  then have "0 \<le> (b - a) * (3 * (a + b) - 2 * (a * a + a * b + b * b))"
    using assms(2) by simp
  also have "\<dots> = b * b * (3 - 2 * b) - a * a * (3 - 2 * a)"
    by (simp add: algebra_simps)
  finally show ?thesis by simp
qed

lemma clamp_unit: "0 \<le> clamp x 0 1" "clamp x 0 1 \<le> 1"
  by (simp_all add: clamp_def)

lemma clamp_mono: "x \<le> y \<Longrightarrow> clamp x 0 1 \<le> clamp y 0 1"
  by (simp add: clamp_def min_def max_def)

lemma smoothstep_unit: "0 \<le> smoothstep e0 e1 x" "smoothstep e0 e1 x \<le> 1"
proof -
  let ?t = "clamp ((x - e0) / (e1 - e0)) 0 1"
  have t: "0 \<le> ?t" "?t \<le> 1" by (rule clamp_unit)+
  from cubic_mono [OF order_refl t(1)] show "0 \<le> smoothstep e0 e1 x"
    using t(2) by (simp add: smoothstep_def Let_def)
  from cubic_mono [OF t order_refl] show "smoothstep e0 e1 x \<le> 1"
    by (simp add: smoothstep_def Let_def)
qed

lemma smoothstep_spread:
  assumes "0 < s1" and "s1 \<le> s2" and "0 \<le> d"
  shows "smoothstep 0 s2 d \<le> smoothstep 0 s1 d"
proof -
  have "d / s2 \<le> d / s1"
    using assms by (simp add: frac_le)
  then have "clamp (d / s2) 0 1 \<le> clamp (d / s1) 0 1"
    by (rule clamp_mono)
  from cubic_mono [OF clamp_unit(1) this clamp_unit(2)]
  show ?thesis by (simp add: smoothstep_def Let_def)
qed

lemma beam_intensity_above:
  "0 < d \<Longrightarrow> beam_intensity (scanY + d) scanY = (1 - smoothstep 0 180 d) powr 2 * 0.6"
  by (simp add: beam_intensity_def Let_def)

lemma beam_intensity_below:
  "0 \<le> d \<Longrightarrow> beam_intensity (scanY - d) scanY = (1 - smoothstep 0 100 d) powr 2 * 0.6"
  by (simp add: beam_intensity_def Let_def)

lemma beam_intensity_sides:
  assumes "0 \<le> d"
  shows "beam_intensity (scanY - d) scanY \<le> beam_intensity (scanY + d) scanY"
proof (cases "d = 0")
  case True
  then show ?thesis by simp
next
  case False
  then have d: "0 < d" using assms by simp
  have "smoothstep 0 180 d \<le> smoothstep 0 100 d"
    by (rule smoothstep_spread) (simp_all add: assms)
  then have "1 - smoothstep 0 100 d \<le> 1 - smoothstep 0 180 d"
    by simp
  moreover have "0 \<le> 1 - smoothstep 0 100 d"
    using smoothstep_unit(2) [of 0 100 d] by simp
  ultimately have "(1 - smoothstep 0 100 d) powr 2 \<le> (1 - smoothstep 0 180 d) powr 2"
    by (intro powr_mono2) simp_all
  then show ?thesis
    by (simp add: beam_intensity_above [OF d] beam_intensity_below [OF assms])
qed

lemma edge_boost_front: "NdotV f = 1 \<Longrightarrow> edge_boost f = 0"
  by (simp add: edge_boost_def Let_def)

lemma edge_boost_side: "NdotV f < 1 \<Longrightarrow> 0 < edge_boost f"
  by (simp add: edge_boost_def Let_def)

lemma NdotV_aligned:
  assumes "vNormal f = vViewPosition f" and "dot3 (vNormal f) (vNormal f) \<noteq> 0"
  shows "NdotV f = 1"
proof -
  let ?n = "vNormal f"
  define s where "s = sqrt (dot3 ?n ?n)"
  have pos: "0 \<le> dot3 ?n ?n"
    by (simp add: dot3_def)
  have ss: "s * s = dot3 ?n ?n"
    using pos by (simp add: s_def)
  have "NdotV f = vx ?n / s * (vx ?n / s) + vy ?n / s * (vy ?n / s) + vz ?n / s * (vz ?n / s)"
    by (simp add: NdotV_def normalize3_def Let_def assms(1) [symmetric] s_def [symmetric])
       (simp add: dot3_def)
  also have "\<dots> = (vx ?n * vx ?n + vy ?n * vy ?n + vz ?n * vz ?n) / (s * s)"
    by (simp add: add_divide_distrib)
  also have "\<dots> = dot3 ?n ?n / dot3 ?n ?n"
    by (simp only: ss) (simp add: dot3_def)
  also have "\<dots> = 1"
    using assms(2) by simp
  finally show ?thesis .
qed

text \<open>
  Claim C9, as amended. At equal distance \<open>d\<close> from the scan line, the beam intensity of a
  point below the line (falloff width 100) is at most that of a point above it (falloff
  width 180). For two fragments of the same beam intensity, when that intensity is
  strictly positive and the flash uniform is not negative, a fragment whose normal is
  not aligned with the view direction (\<open>NdotV < 1\<close>, as near a silhouette) receives
  strictly more total light than a front-facing one (\<open>NdotV = 1\<close>); a normal equal to the
  view vector is front-facing. A fragment of beam intensity zero receives no light at all.
\<close>

theorem shading_contract:
  "(0 \<le> d \<longrightarrow> beam_intensity (scanY - d) scanY \<le> beam_intensity (scanY + d) scanY) \<and>
   (beam_intensity (vy (vPosition f1)) scanY = beam_intensity (vy (vPosition f2)) scanY \<and>
    0 < beam_intensity (vy (vPosition f1)) scanY \<and> 0 \<le> clickFlash \<and>
    NdotV f1 < 1 \<and> NdotV f2 = 1 \<longrightarrow>
      total_light scanY clickFlash f2 < total_light scanY clickFlash f1) \<and>
   (vNormal f2 = vViewPosition f2 \<and> dot3 (vNormal f2) (vNormal f2) \<noteq> 0 \<longrightarrow> NdotV f2 = 1) \<and>
   (beam_intensity (vy (vPosition f1)) scanY = 0 \<longrightarrow> total_light scanY clickFlash f1 = 0)"
proof -
  have dark: "total_light scanY clickFlash f1 = 0"
    if "beam_intensity (vy (vPosition f1)) scanY = 0"
    using that by (simp add: total_light_def Let_def)
  have boost: "total_light scanY clickFlash f2 < total_light scanY clickFlash f1"
    if eq: "beam_intensity (vy (vPosition f1)) scanY = beam_intensity (vy (vPosition f2)) scanY"
      and b: "0 < beam_intensity (vy (vPosition f1)) scanY" and c: "0 \<le> clickFlash"
      and n1: "NdotV f1 < 1" and n2: "NdotV f2 = 1"
  proof -
    let ?b = "beam_intensity (vy (vPosition f1)) scanY"
    have t2: "total_light scanY clickFlash f2 = ?b * (1 + clickFlash)"
      by (simp add: total_light_def Let_def edge_boost_front [OF n2] eq)
    have t1: "total_light scanY clickFlash f1
        = ?b * (1 + clickFlash) + ?b * edge_boost f1 * 2 * (1 + clickFlash)"
      by (simp add: total_light_def Let_def algebra_simps)
    have "0 < ?b * edge_boost f1 * 2 * (1 + clickFlash)"
      using b c edge_boost_side [OF n1] by simp
    then show ?thesis by (simp only: t1 t2)
  qed
  from beam_intensity_sides [of d scanY] boost NdotV_aligned [of f2] dark
  show ?thesis by blast
qed

lemma ex_NdotV: "NdotV (ex_silhouette h) = 0" "NdotV (ex_front h) = 1"
  by (simp_all add: NdotV_def normalize3_def dot3_def ex_silhouette_def ex_front_def Let_def)

lemma smoothstep_values:
  "smoothstep 0 180 90 = 1 / 2" "smoothstep 0 100 90 = 243 / 250"
  "smoothstep 0 100 0 = 0" "smoothstep 0 180 500 = 1"
  by (simp_all add: smoothstep_def clamp_def Let_def)

lemma beam_intensity_values:
  "beam_intensity 0 0 = 3 / 5" "beam_intensity 500 0 = 0"
  "beam_intensity 90 0 = 3 / 20" "beam_intensity (- 90) 0 = 147 / 312500"
  by (simp_all add: beam_intensity_def smoothstep_values Let_def power2_eq_square)

theorem shading_contract_witness:
  "(0 :: real) \<le> 90 \<and> beam_intensity (- 90) 0 = 147 / 312500 \<and>
   beam_intensity 90 0 = 3 / 20 \<and>
   beam_intensity (0 - 90) 0 \<le> beam_intensity (0 + 90) 0 \<and>
   0 < beam_intensity (vy (vPosition (ex_silhouette 0))) 0 \<and>
   NdotV (ex_silhouette 0) < 1 \<and> NdotV (ex_front 0) = 1 \<and>
   vNormal (ex_front 0) = vViewPosition (ex_front 0) \<and>
   total_light 0 0.5 (ex_front 0) < total_light 0 0.5 (ex_silhouette 0)"
proof -
  have p: "vy (vPosition (ex_silhouette 0)) = 0" "vy (vPosition (ex_front 0)) = 0"
    "vNormal (ex_front 0) = vViewPosition (ex_front 0)"
    by (simp_all add: ex_silhouette_def ex_front_def)
  show ?thesis
    using shading_contract [of 90 0 "ex_silhouette 0" "ex_front 0" "0.5"]
    by (simp add: p ex_NdotV beam_intensity_values)
qed

text \<open>
  The claim as first stated, for every beam intensity, fails where the beam is out of
  reach: 500 units above the scan line the intensity is zero and the edge-on and the
  face-on fragment both receive no light.
\<close>

theorem shading_contract_counterexample:
  "NdotV (ex_silhouette 500) = 0 \<and> NdotV (ex_front 500) = 1 \<and>
   beam_intensity (vy (vPosition (ex_silhouette 500))) 0 = 0 \<and>
   beam_intensity (vy (vPosition (ex_front 500))) 0 = 0 \<and>
   total_light 0 0 (ex_silhouette 500) = 0 \<and> total_light 0 0 (ex_front 500) = 0 \<and>
   \<not> total_light 0 0 (ex_front 500) < total_light 0 0 (ex_silhouette 500)"
proof -
  have p: "vy (vPosition (ex_silhouette 500)) = 500" "vy (vPosition (ex_front 500)) = 500"
    by (simp_all add: ex_silhouette_def ex_front_def)
  show ?thesis
    by (simp add: ex_NdotV p total_light_def beam_intensity_values Let_def)
qed

end
